theory Spec2Isabelle
  imports Main "HOL-Library.Word"
begin

section \<open>PageReader: the data the component works on\<close>

text \<open>
  The development follows \<^verbatim>\<open>src/components/PageReader.tsx\<close>.  A JavaScript string
  is a sequence of 16-bit code units; \<open>lit\<close> embeds an ASCII literal of the source.
\<close>

type_synonym js_string = "16 word list"

definition lit :: "string \<Rightarrow> js_string" where
  "lit s = map (\<lambda>c. word_of_nat (of_char c)) s"

text \<open>
  A thrown value.  \<open>Error m\<close> stands for any object for which
  \<^verbatim>\<open>err instanceof Error\<close> holds (Error, TypeError, URIError, ...), with its
  \<^verbatim>\<open>message\<close>; \<open>NonError\<close> for any other thrown value.  A computation that may
  throw returns \<open>js_error + 'a\<close>, with \<open>Inl\<close> the thrown value.
\<close>

datatype js_error = Error js_string | NonError

text \<open>
  The result of \<^verbatim>\<open>new URL(string)\<close>.  The only component the source reads is
  \<^verbatim>\<open>protocol\<close>, which the URL API defines as the scheme followed by a colon.
\<close>

record URL =
  scheme :: js_string

definition protocol :: "URL \<Rightarrow> js_string" where
  "protocol u = scheme u @ lit '':''"

text \<open>The argument of \<^verbatim>\<open>fetch\<close>: the request URL and the init object.\<close>

record Request =
  req_url :: js_string
  req_method :: js_string
  req_headers :: "(js_string \<times> js_string) list"

text \<open>
  A response as the source uses it: \<^verbatim>\<open>status\<close>, \<^verbatim>\<open>ok\<close> (defined by the Fetch
  API as a status in the range 200 to 299) and the outcome of awaiting \<^verbatim>\<open>text()\<close>.
\<close>

record Response =
  status :: nat
  text_result :: "js_error + js_string"

definition ok :: "Response \<Rightarrow> bool" where
  "ok r = (200 \<le> status r \<and> status r \<le> 299)"

record Blob =
  blobParts :: "js_string list"
  blob_type :: js_string

record Anchor =
  href :: js_string
  download :: js_string

text \<open>
  What the browser supplies.  \<open>fetch\<close> receives the requests already issued by the
  running invocation besides the request itself, so that the same request may be
  answered differently each time; \<open>Date_now\<close> is the clock reading, in milliseconds.
\<close>

record platform =
  URL_new :: "js_string \<Rightarrow> js_error + URL"
  encodeURIComponent :: "js_string \<Rightarrow> js_error + js_string"
  fetch :: "Request list \<Rightarrow> Request \<Rightarrow> js_error + Response"
  Date_now :: int
  createObjectURL :: "Blob \<Rightarrow> js_string"

text \<open>The five \<^verbatim>\<open>useState\<close> cells of the component.\<close>

record state =
  url :: js_string
  htmlContent :: js_string
  loading :: bool
  error :: js_string
  lastFetchedUrl :: js_string

section \<open>isValidUrl\<close>

text \<open>
  \<^verbatim>\<open>try { const newUrl = new URL(string);
        return newUrl.protocol === 'http:' || newUrl.protocol === 'https:'; }
  catch (err) { return false; }\<close>
\<close>

definition isValidUrl :: "platform \<Rightarrow> js_string \<Rightarrow> js_error + bool" where
  "isValidUrl P string =
     (case URL_new P string of
        Inr newUrl \<Rightarrow> Inr (protocol newUrl = lit ''http:'' \<or> protocol newUrl = lit ''https:'')
      | Inl err \<Rightarrow> Inr False)"

section \<open>Strings and numbers of the language\<close>

text \<open>
  \<^verbatim>\<open>String.prototype.trim\<close> removes the white space and line terminator code units
  of ECMAScript from both ends.
\<close>

definition isWhiteSpace :: "16 word \<Rightarrow> bool" where
  "isWhiteSpace c \<longleftrightarrow>
     c \<in> set [0x0009, 0x000A, 0x000B, 0x000C, 0x000D, 0x0020, 0x00A0, 0x1680,
              0x2000, 0x2001, 0x2002, 0x2003, 0x2004, 0x2005, 0x2006, 0x2007,
              0x2008, 0x2009, 0x200A, 0x2028, 0x2029, 0x202F, 0x205F, 0x3000, 0xFEFF]"

definition trim :: "js_string \<Rightarrow> js_string" where
  "trim s = rev (dropWhile isWhiteSpace (rev (dropWhile isWhiteSpace s)))"

text \<open>
  The decimal digits of an integer, as a template literal prints a number that is an
  integer (a status code, a clock reading).
\<close>

fun digits :: "nat \<Rightarrow> js_string" where
  "digits n = (if n < 10 then [word_of_nat (48 + n)]
               else digits (n div 10) @ [word_of_nat (48 + n mod 10)])"

declare digits.simps [simp del]

definition Number_toString :: "int \<Rightarrow> js_string" where
  "Number_toString i = (if i < 0 then lit ''-'' @ digits (nat (- i)) else digits (nat i))"

text \<open>\<^verbatim>\<open>String.prototype.includes\<close>, used to state what a message mentions.\<close>

fun js_includes :: "js_string \<Rightarrow> js_string \<Rightarrow> bool" where
  "js_includes [] needle = (needle = [])"
| "js_includes (c # cs) needle = (take (length needle) (c # cs) = needle \<or> js_includes cs needle)"

text \<open>
  The bytes a \<^verbatim>\<open>Blob\<close> holds for a string part: the string is read as Unicode
  scalar values (a surrogate pair is one code point, a lone surrogate becomes U+FFFD)
  and encoded in UTF-8.
\<close>

definition isLead :: "16 word \<Rightarrow> bool" where
  "isLead u \<longleftrightarrow> 0xD800 \<le> unat u \<and> unat u \<le> 0xDBFF"

definition isTrail :: "16 word \<Rightarrow> bool" where
  "isTrail u \<longleftrightarrow> 0xDC00 \<le> unat u \<and> unat u \<le> 0xDFFF"

fun scalar_values :: "js_string \<Rightarrow> nat list" where
  "scalar_values [] = []"
| "scalar_values [u] = (if isLead u \<or> isTrail u then [0xFFFD] else [unat u])"
| "scalar_values (u # v # rest) =
     (if isLead u \<and> isTrail v
        then (0x10000 + (unat u - 0xD800) * 0x400 + (unat v - 0xDC00)) # scalar_values rest
      else if isLead u \<or> isTrail u then 0xFFFD # scalar_values (v # rest)
      else unat u # scalar_values (v # rest))"

definition utf8_of_scalar :: "nat \<Rightarrow> 8 word list" where
  "utf8_of_scalar c =
     (if c < 0x80 then [word_of_nat c]
      else if c < 0x800 then [word_of_nat (0xC0 + c div 0x40), word_of_nat (0x80 + c mod 0x40)]
      else if c < 0x10000 then
        [word_of_nat (0xE0 + c div 0x1000), word_of_nat (0x80 + c div 0x40 mod 0x40),
         word_of_nat (0x80 + c mod 0x40)]
      else
        [word_of_nat (0xF0 + c div 0x40000), word_of_nat (0x80 + c div 0x1000 mod 0x40),
         word_of_nat (0x80 + c div 0x40 mod 0x40), word_of_nat (0x80 + c mod 0x40)])"

definition utf8_encode :: "js_string \<Rightarrow> 8 word list" where
  "utf8_encode s = concat (map utf8_of_scalar (scalar_values s))"

definition Blob_bytes :: "Blob \<Rightarrow> 8 word list" where
  "Blob_bytes b = concat (map utf8_encode (blobParts b))"

section \<open>What an invocation does\<close>

text \<open>
  A handler's run is the list of its effects, in program order: the state setters it
  calls, the requests it issues, what it logs and what it does to the document.
\<close>

datatype effect =
    SetLoading bool
  | SetError js_string
  | SetHtmlContent js_string
  | SetLastFetchedUrl js_string
  | Fetch Request
  | ConsoleError js_string js_error
  | NewBlob Blob
  | CreateObjectURL Blob
  | CreateElement js_string
  | AppendChild Anchor
  | Click Anchor
  | RemoveChild Anchor
  | RevokeObjectURL js_string

fun isFetch :: "effect \<Rightarrow> bool" where
  "isFetch (Fetch req) = True"
| "isFetch e = False"

text \<open>The state the component holds once the setters of a run have been applied.\<close>

fun apply_effect :: "state \<Rightarrow> effect \<Rightarrow> state" where
  "apply_effect st (SetLoading b) = st\<lparr>loading := b\<rparr>"
| "apply_effect st (SetError m) = st\<lparr>error := m\<rparr>"
| "apply_effect st (SetHtmlContent h) = st\<lparr>htmlContent := h\<rparr>"
| "apply_effect st (SetLastFetchedUrl u) = st\<lparr>lastFetchedUrl := u\<rparr>"
| "apply_effect st e = st"

definition run :: "state \<Rightarrow> effect list \<Rightarrow> state" where
  "run st t = foldl apply_effect st t"

section \<open>fetchPageContent\<close>

definition corsProxies :: "js_string list" where
  "corsProxies =
     [lit ''https://api.allorigins.win/raw?url='',
      lit ''https://cors-anywhere.herokuapp.com/'',
      lit ''https://corsproxy.io/?'']"

text \<open>
  \<^verbatim>\<open>fetch(proxyUrl, { method: 'GET', headers: { 'User-Agent': '...' } })\<close>
\<close>

definition request_init :: "js_string \<Rightarrow> Request" where
  "request_init proxyUrl =
     \<lparr>req_url = proxyUrl,
      req_method = lit ''GET'',
      req_headers =
        [(lit ''User-Agent'',
          lit ''Mozilla/5.0 (Windows NT 10.0; Win64; x64) AppleWebKit/537.36'')]\<rparr>"

text \<open>
  The variables of the loop: \<^verbatim>\<open>let response; let lastError;\<close> (both undefined at
  first), and the requests issued so far, oldest first.
\<close>

record loop_vars =
  response :: "Response option"
  lastError :: "js_error option"
  requests :: "Request list"

text \<open>
  \<^verbatim>\<open>for (const proxy of corsProxies) {
    try {
      const proxyUrl = proxy + encodeURIComponent(url);
      response = await fetch(proxyUrl, {...});
      if (response.ok) { break; }
    } catch (err) { lastError = err; continue; }
  }\<close>
  A throw of \<^verbatim>\<open>encodeURIComponent\<close> or of \<^verbatim>\<open>fetch\<close> leaves \<^verbatim>\<open>response\<close> as it was.
\<close>

fun proxy_loop :: "platform \<Rightarrow> js_string \<Rightarrow> js_string list \<Rightarrow> loop_vars \<Rightarrow> loop_vars" where
  "proxy_loop P target [] v = v"
| "proxy_loop P target (proxy # rest) v =
     (case encodeURIComponent P target of
        Inl err \<Rightarrow> proxy_loop P target rest (v\<lparr>lastError := Some err\<rparr>)
      | Inr enc \<Rightarrow>
          (case fetch P (requests v) (request_init (proxy @ enc)) of
             Inl err \<Rightarrow>
               proxy_loop P target rest
                 (v\<lparr>lastError := Some err,
                    requests := requests v @ [request_init (proxy @ enc)]\<rparr>)
           | Inr r \<Rightarrow>
               if ok r
               then v\<lparr>response := Some r,
                      requests := requests v @ [request_init (proxy @ enc)]\<rparr>
               else proxy_loop P target rest
                      (v\<lparr>response := Some r,
                         requests := requests v @ [request_init (proxy @ enc)]\<rparr>)))"

text \<open>
  \<^verbatim>\<open>response?.status || 'Network error'\<close>, as the template literal prints it: an
  undefined response and a status of 0 both give the fixed text.
\<close>

definition status_or_network_error :: "Response option \<Rightarrow> js_string" where
  "status_or_network_error resp =
     (case resp of
        None \<Rightarrow> lit ''Network error''
      | Some r \<Rightarrow> if status r = 0 then lit ''Network error''
                  else Number_toString (int (status r)))"

text \<open>
  The body of the outer \<^verbatim>\<open>try\<close>, up to the value of \<^verbatim>\<open>html\<close>: the requests it
  issued, and either the thrown value or the text read from the response.
  \<^verbatim>\<open>if (!response || !response.ok) {
    throw new Error(`Failed to fetch: ${response?.status || 'Network error'}`); }
  const html = await response.text();\<close>
\<close>

definition try_block :: "platform \<Rightarrow> js_string \<Rightarrow> js_string list \<Rightarrow> Request list \<times> (js_error + js_string)" where
  "try_block P target proxies =
     (let v = proxy_loop P target proxies \<lparr>response = None, lastError = None, requests = []\<rparr>
      in (requests v,
          case response v of
            None \<Rightarrow> Inl (Error (lit ''Failed to fetch: '' @ status_or_network_error (response v)))
          | Some r \<Rightarrow>
              if \<not> ok r
              then Inl (Error (lit ''Failed to fetch: '' @ status_or_network_error (response v)))
              else text_result r))"

definition failure_text :: js_string where
  "failure_text = lit ''Failed to fetch page content. This might be due to CORS restrictions or the page being unavailable. Error: ''"

text \<open>
  \<^verbatim>\<open>catch (err) {
    console.error('Error fetching page:', err);
    setError(`Failed to fetch page content. ... Error: ${err instanceof Error ? err.message : 'Unknown error'}`); }\<close>
\<close>

definition catch_block :: "js_error \<Rightarrow> effect list" where
  "catch_block err =
     [ConsoleError (lit ''Error fetching page:'') err,
      SetError (failure_text @ (case err of Error m \<Rightarrow> m | NonError \<Rightarrow> lit ''Unknown error''))]"

text \<open>
  The handler, over the list the loop walks.  The two checks come before the
  \<^verbatim>\<open>try\<close>: a throw of \<^verbatim>\<open>isValidUrl\<close> would leave the handler as a throw.  After
  them: the three setters, the \<^verbatim>\<open>try\<close> with its \<^verbatim>\<open>catch\<close>, and the
  \<^verbatim>\<open>finally\<close>.
\<close>

definition fetchPageContentWith :: "platform \<Rightarrow> js_string list \<Rightarrow> state \<Rightarrow> js_error + effect list" where
  "fetchPageContentWith P proxies st =
     (if trim (url st) = [] then Inr [SetError (lit ''Please enter a valid URL'')]
      else
        case isValidUrl P (url st) of
          Inl err \<Rightarrow> Inl err
        | Inr valid \<Rightarrow>
            if \<not> valid then Inr [SetError (lit ''Please enter a valid HTTP/HTTPS URL'')]
            else
              (case try_block P (url st) proxies of
                 (reqs, outcome) \<Rightarrow>
                   Inr ([SetLoading True, SetError [], SetHtmlContent []]
                        @ map Fetch reqs
                        @ (case outcome of
                             Inr html \<Rightarrow> [SetHtmlContent html, SetLastFetchedUrl (url st)]
                           | Inl err \<Rightarrow> catch_block err)
                        @ [SetLoading False])))"

text \<open>The handler as the component has it, on its own list of proxies.\<close>

definition fetchPageContent :: "platform \<Rightarrow> state \<Rightarrow> js_error + effect list" where
  "fetchPageContent P st = fetchPageContentWith P corsProxies st"

section \<open>downloadHtml\<close>

text \<open>
  \<^verbatim>\<open>if (!htmlContent) return;
  const blob = new Blob([htmlContent], { type: 'text/html' });
  const url = URL.createObjectURL(blob);
  const a = document.createElement('a');
  a.href = url;
  a.download = `page-${Date.now()}.html`;
  document.body.appendChild(a); a.click(); document.body.removeChild(a);
  URL.revokeObjectURL(url);\<close>
\<close>

definition downloadHtml :: "platform \<Rightarrow> state \<Rightarrow> effect list" where
  "downloadHtml P st =
     (if htmlContent st = [] then []
      else
        let blob = \<lparr>blobParts = [htmlContent st], blob_type = lit ''text/html''\<rparr>;
            objectUrl = createObjectURL P blob;
            a = \<lparr>href = objectUrl,
                 download = lit ''page-'' @ Number_toString (Date_now P) @ lit ''.html''\<rparr>
        in [NewBlob blob, CreateObjectURL blob, CreateElement (lit ''a''),
            AppendChild a, Click a, RemoveChild a, RevokeObjectURL objectUrl])"

section \<open>Stating what the network answers\<close>

text \<open>
  The answer to the request for the proxy at position \<open>k\<close> of the list, when the
  requests \<open>hist\<close> and then those for the \<open>k\<close> proxies before it have been issued.
\<close>

definition attempt :: "platform \<Rightarrow> js_string \<Rightarrow> Request list \<Rightarrow> js_string list \<Rightarrow> nat \<Rightarrow> js_error + Response" where
  "attempt P enc hist proxies k =
     fetch P (hist @ map (\<lambda>q. request_init (q @ enc)) (take k proxies))
       (request_init (proxies ! k @ enc))"

text \<open>An answer that ends the loop: a response with \<^verbatim>\<open>ok\<close> set.\<close>

definition succeeded :: "js_error + Response \<Rightarrow> bool" where
  "succeeded a = (case a of Inr r \<Rightarrow> ok r | Inl err \<Rightarrow> False)"

section \<open>A browser for the examples\<close>

text \<open>
  A platform that answers as a browser does on the inputs of the examples: the URL
  parser and the encoder on the strings listed, the network by a script that gives the
  answer to the first request, to the second, and so on.
\<close>

definition sample_URL_new :: "js_string \<Rightarrow> js_error + URL" where
  "sample_URL_new s =
     (if s = lit ''https://example.com'' then Inr \<lparr>scheme = lit ''https''\<rparr>
      else if s = lit ''http://example.com/path?q=1'' then Inr \<lparr>scheme = lit ''http''\<rparr>
      else if s = lit ''ftp://example.com/pub'' then Inr \<lparr>scheme = lit ''ftp''\<rparr>
      else if s = lit ''file:///etc/hosts'' then Inr \<lparr>scheme = lit ''file''\<rparr>
      else Inl (Error (lit ''Invalid URL'')))"

definition sample_encodeURIComponent :: "js_string \<Rightarrow> js_error + js_string" where
  "sample_encodeURIComponent s =
     (if s = lit ''https://example.com'' then Inr (lit ''https%3A%2F%2Fexample.com'')
      else Inl (Error (lit ''URI malformed'')))"

definition scripted_fetch :: "(js_error + Response) list \<Rightarrow> Request list \<Rightarrow> Request \<Rightarrow> js_error + Response" where
  "scripted_fetch script hist req =
     (if length hist < length script then script ! length hist
      else Inl (Error (lit ''Failed to fetch'')))"

definition sample_platform :: "(js_error + Response) list \<Rightarrow> platform" where
  "sample_platform script =
     \<lparr>URL_new = sample_URL_new,
      encodeURIComponent = sample_encodeURIComponent,
      fetch = scripted_fetch script,
      Date_now = 1700000000000,
      createObjectURL = (\<lambda>b. lit ''blob:page-reader/1'')\<rparr>"

definition sample_state :: state where
  "sample_state =
     \<lparr>url = lit ''https://example.com'',
      htmlContent = lit ''<p>old</p>'',
      loading = False,
      error = [],
      lastFetchedUrl = lit ''https://old.example''\<rparr>"

definition http_response :: "nat \<Rightarrow> string \<Rightarrow> js_error + Response" where
  "http_response code body = Inr \<lparr>status = code, text_result = Inr (lit body)\<rparr>"

text \<open>A response with \<^verbatim>\<open>ok\<close> set whose \<^verbatim>\<open>text()\<close> rejects.\<close>

definition unreadable_response :: "nat \<Rightarrow> js_error + Response" where
  "unreadable_response code =
     Inr \<lparr>status = code, text_result = Inl (Error (lit ''body stream interrupted''))\<rparr>"

definition transport_fault :: "js_error + Response" where
  "transport_fault = Inl (Error (lit ''connection refused''))"

section \<open>Properties\<close>

lemma lit_append: "lit (a @ b) = lit a @ lit b"
  by (simp add: lit_def)

lemma protocol_eq_iff: "protocol u = lit (s @ '':'') \<longleftrightarrow> scheme u = lit s"
  by (simp add: protocol_def lit_append)

subsection \<open>The validator\<close>

lemma isValidUrl_eq:
  "isValidUrl P s = Inr (\<exists>u. URL_new P s = Inr u \<and> (scheme u = lit ''http'' \<or> scheme u = lit ''https''))"
  using protocol_eq_iff [of _ "''http''"] protocol_eq_iff [of _ "''https''"]
  by (simp add: isValidUrl_def split: sum.splits)

subsection \<open>Runs and final states\<close>

lemma run_Nil: "run st [] = st" by (simp add: run_def)
lemma run_Cons: "run st (e # t) = run (apply_effect st e) t" by (simp add: run_def)
lemma run_append: "run st (a @ b) = run (run st a) b" by (simp add: run_def)
lemma run_map_Fetch: "run st (map Fetch reqs) = st"
  by (induction reqs) (simp_all add: run_def)
lemma run_map_Fetch': "run st (map (\<lambda>q. Fetch (f q)) qs) = st"
  by (induction qs) (simp_all add: run_def)

lemma filter_isFetch_map: "filter isFetch (map (\<lambda>q. Fetch (f q)) qs) = map (\<lambda>q. Fetch (f q)) qs"
  by (induction qs) simp_all

subsection \<open>Blank input\<close>

lemma dropWhile_Nil_iff: "dropWhile Q xs = [] \<longleftrightarrow> (\<forall>x\<in>set xs. Q x)"
  by (induction xs) auto

lemma all_dropWhile_iff: "(\<forall>x\<in>set (dropWhile Q xs). Q x) \<longleftrightarrow> (\<forall>x\<in>set xs. Q x)"
  by (induction xs) auto

lemma trim_Nil_iff: "trim s = [] \<longleftrightarrow> (\<forall>c\<in>set s. isWhiteSpace c)"
  by (simp add: trim_def dropWhile_Nil_iff all_dropWhile_iff)

subsection \<open>The loop over the proxies\<close>

lemma attempt_0: "attempt P enc hist (p # rest) 0 = fetch P hist (request_init (p @ enc))"
  by (simp add: attempt_def)

lemma attempt_Suc:
  "attempt P enc hist (p # rest) (Suc k) = attempt P enc (hist @ [request_init (p @ enc)]) rest k"
  by (simp add: attempt_def)

lemma proxy_loop_first_success:
  assumes "encodeURIComponent P target = Inr enc"
    and "k < length ps"
    and "\<forall>j<k. \<not> succeeded (attempt P enc (requests v) ps j)"
    and "attempt P enc (requests v) ps k = Inr r"
    and "ok r"
  shows "response (proxy_loop P target ps v) = Some r \<and>
         requests (proxy_loop P target ps v) =
           requests v @ map (\<lambda>q. request_init (q @ enc)) (take (Suc k) ps)"
  using assms
proof (induction ps arbitrary: k v)
  case Nil
  then show ?case by simp
next
  case (Cons p rest)
  show ?case
  proof (cases k)
    case 0
    with Cons.prems show ?thesis by (simp add: attempt_0)
  next
    case (Suc k')
    let ?rq = "request_init (p @ enc)"
    from Cons.prems(3) Suc have first: "\<not> succeeded (fetch P (requests v) ?rq)"
      using attempt_0 [of P enc "requests v" p rest] by auto
    from Cons.prems(3) Suc
    have later: "\<forall>j<k'. \<not> succeeded (attempt P enc (requests v @ [?rq]) rest j)"
      by (auto simp: attempt_Suc [symmetric])
    from Cons.prems(4) Suc
    have at: "attempt P enc (requests v @ [?rq]) rest k' = Inr r"
      by (simp add: attempt_Suc)
    from Cons.prems(2) Suc have len: "k' < length rest" by simp
    have step: "\<And>v'. requests v' = requests v @ [?rq] \<Longrightarrow>
         response (proxy_loop P target rest v') = Some r \<and>
         requests (proxy_loop P target rest v') =
           requests v @ map (\<lambda>q. request_init (q @ enc)) (take (Suc k) (p # rest))"
      using Cons.IH [OF Cons.prems(1) len _ _ Cons.prems(5)] later at Suc by simp
    show ?thesis
    proof (cases "fetch P (requests v) ?rq")
      case (Inl err)
      then show ?thesis using Cons.prems(1) step by simp
    next
      case (Inr r')
      with first have "\<not> ok r'" by (simp add: succeeded_def)
      with Inr show ?thesis using Cons.prems(1) step by simp
    qed
  qed
qed

lemma proxy_loop_all_status:
  assumes "encodeURIComponent P target = Inr enc"
    and "\<forall>k<length ps. \<exists>r. attempt P enc (requests v) ps k = Inr r \<and> status r = n"
    and "\<not> (200 \<le> n \<and> n \<le> 299)"
    and "ps \<noteq> [] \<or> (\<exists>r. response v = Some r \<and> status r = n)"
  shows "(\<exists>r. response (proxy_loop P target ps v) = Some r \<and> status r = n) \<and>
         requests (proxy_loop P target ps v) =
           requests v @ map (\<lambda>q. request_init (q @ enc)) ps"
  using assms
proof (induction ps arbitrary: v)
  case Nil
  then show ?case by simp
next
  case (Cons p rest)
  let ?rq = "request_init (p @ enc)"
  from Cons.prems(2) have "\<exists>r. attempt P enc (requests v) (p # rest) 0 = Inr r \<and> status r = n"
    by simp
  then obtain r where r: "fetch P (requests v) ?rq = Inr r" "status r = n"
    by (auto simp: attempt_0)
  with Cons.prems(3) have nok: "\<not> ok r" by (simp add: ok_def)
  let ?v' = "v\<lparr>response := Some r, requests := requests v @ [?rq]\<rparr>"
  from Cons.prems(2)
  have later: "\<forall>k<length rest. \<exists>r. attempt P enc (requests ?v') rest k = Inr r \<and> status r = n"
    by (auto simp: attempt_Suc [symmetric])
  have "rest \<noteq> [] \<or> (\<exists>r'. response ?v' = Some r' \<and> status r' = n)"
    using r by simp
  from Cons.IH [OF Cons.prems(1) later Cons.prems(3) this]
  show ?case using r nok Cons.prems(1) by simp
qed


lemma proxy_loop_encode_throws:
  "encodeURIComponent P target = Inl e \<Longrightarrow> requests (proxy_loop P target ps v) = requests v"
  by (induction ps arbitrary: v) simp_all

lemma fetchPageContentWith_valid:
  assumes "trim (url st) \<noteq> []" and "isValidUrl P (url st) = Inr True"
  shows "fetchPageContentWith P proxies st =
           Inr ([SetLoading True, SetError [], SetHtmlContent []]
                @ map Fetch (fst (try_block P (url st) proxies))
                @ (case snd (try_block P (url st) proxies) of
                     Inr html \<Rightarrow> [SetHtmlContent html, SetLastFetchedUrl (url st)]
                   | Inl err \<Rightarrow> catch_block err)
                @ [SetLoading False])"
  using assms by (simp add: fetchPageContentWith_def split: prod.splits)

lemma Number_toString_503: "Number_toString 503 = lit ''503''"
  by (simp add: Number_toString_def digits.simps lit_def)

lemma scheme_literals_distinct:
  "lit ''ftp'' \<noteq> lit ''http''" "lit ''ftp'' \<noteq> lit ''https''"
  "lit ''file'' \<noteq> lit ''http''" "lit ''file'' \<noteq> lit ''https''"
  by (simp_all add: lit_def)

subsection \<open>The handler\<close>

lemma try_block_first_success:
  assumes "encodeURIComponent P target = Inr enc"
    and "k < length proxies"
    and "\<forall>j<k. \<not> succeeded (attempt P enc [] proxies j)"
    and "attempt P enc [] proxies k = Inr r"
    and "ok r"
  shows "try_block P target proxies =
           (map (\<lambda>q. request_init (q @ enc)) (take (Suc k) proxies), text_result r)"
  using proxy_loop_first_success
    [of P target enc k proxies "\<lparr>response = None, lastError = None, requests = []\<rparr>" r] assms
  by (simp add: try_block_def Let_def)

lemma try_block_all_status:
  assumes "encodeURIComponent P target = Inr enc"
    and "proxies \<noteq> []"
    and "\<forall>k<length proxies. \<exists>r. attempt P enc [] proxies k = Inr r \<and> status r = n"
    and "\<not> (200 \<le> n \<and> n \<le> 299)"
    and "n \<noteq> 0"
  shows "try_block P target proxies =
           (map (\<lambda>q. request_init (q @ enc)) proxies,
            Inl (Error (lit ''Failed to fetch: '' @ Number_toString (int n))))"
proof -
  let ?v = "proxy_loop P target proxies \<lparr>response = None, lastError = None, requests = []\<rparr>"
  from proxy_loop_all_status
    [of P target enc proxies "\<lparr>response = None, lastError = None, requests = []\<rparr>" n] assms
  obtain r where r: "response ?v = Some r" "status r = n"
    and reqs: "requests ?v = map (\<lambda>q. request_init (q @ enc)) proxies"
    by auto
  from r assms(4) have "\<not> ok r" by (simp add: ok_def)
  with r reqs assms(5) show ?thesis
    by (simp add: try_block_def Let_def status_or_network_error_def)
qed

lemma fetchPageContentWith_first_success:
  assumes "trim (url st) \<noteq> []" and "isValidUrl P (url st) = Inr True"
    and "encodeURIComponent P (url st) = Inr enc"
    and "k < length proxies"
    and "\<forall>j<k. \<not> succeeded (attempt P enc [] proxies j)"
    and "attempt P enc [] proxies k = Inr r"
    and "ok r"
    and "text_result r = Inr B"
  shows "fetchPageContentWith P proxies st =
           Inr ([SetLoading True, SetError [], SetHtmlContent []]
                @ map (\<lambda>q. Fetch (request_init (q @ enc))) (take (Suc k) proxies)
                @ [SetHtmlContent B, SetLastFetchedUrl (url st), SetLoading False])"
  using fetchPageContentWith_valid [OF assms(1,2), of proxies]
    try_block_first_success [OF assms(3-7)] assms(8)
  by (simp add: comp_def)

lemmas run_simps = run_Cons run_Nil run_append run_map_Fetch run_map_Fetch'

subsection \<open>The sample browser\<close>

lemma sample_trim: "trim (url sample_state) \<noteq> []"
  by (simp add: sample_state_def trim_def isWhiteSpace_def lit_def)

lemma sample_valid: "isValidUrl (sample_platform script) (url sample_state) = Inr True"
  by (simp add: isValidUrl_eq sample_platform_def sample_state_def sample_URL_new_def)

lemma sample_enc:
  "encodeURIComponent (sample_platform script) (url sample_state) =
     Inr (lit ''https%3A%2F%2Fexample.com'')"
  by (simp add: sample_platform_def sample_state_def sample_encodeURIComponent_def)

lemma sample_attempt:
  "k < length proxies \<Longrightarrow> k < length script \<Longrightarrow>
     attempt (sample_platform script) enc [] proxies k = script ! k"
  by (simp add: attempt_def sample_platform_def scripted_fetch_def)

lemma length_corsProxies: "length corsProxies = 3"
  by (simp add: corsProxies_def)

lemma less_3_cases: "k < (3::nat) \<longleftrightarrow> k = 0 \<or> k = 1 \<or> k = 2"
  by auto

lemma isValidUrl_returns: "\<exists>b. isValidUrl P s = Inr b"
  by (simp add: isValidUrl_eq)

lemma fetchPageContentWith_returns: "\<exists>t. fetchPageContentWith P proxies st = Inr t"
  using isValidUrl_returns [of P "url st"]
  by (auto simp: fetchPageContentWith_def split: prod.splits)

lemma mentions_503: "js_includes (failure_text @ lit ''Failed to fetch: 503'') (lit ''503'')"
  by (simp add: failure_text_def lit_def)

lemma not_ok_503: "\<not> (200 \<le> (503::nat) \<and> (503::nat) \<le> 299)"
  by simp

lemma validation_messages_not_empty:
  "lit ''Please enter a valid URL'' \<noteq> []" "lit ''Please enter a valid HTTP/HTTPS URL'' \<noteq> []"
  by (simp_all add: lit_def)






lemma sample_try_block_all_503:
  "try_block
     (sample_platform [http_response 503 ''busy'', http_response 503 ''busy'', http_response 503 ''busy''])
     (url sample_state) corsProxies =
     (map (\<lambda>q. request_init (q @ lit ''https%3A%2F%2Fexample.com'')) corsProxies,
      Inl (Error (lit ''Failed to fetch: 503'')))"
proof -
  let ?script = "[http_response 503 ''busy'', http_response 503 ''busy'', http_response 503 ''busy'']"
  let ?enc = "lit ''https%3A%2F%2Fexample.com''"
  have nonempty: "corsProxies \<noteq> []" by (simp add: corsProxies_def)
  have all: "\<forall>k<length corsProxies.
      \<exists>r. attempt (sample_platform ?script) ?enc [] corsProxies k = Inr r \<and> status r = 503"
  proof (intro allI impI)
    fix k assume k: "k < length corsProxies"
    then have "k < length ?script" by (simp add: length_corsProxies)
    from sample_attempt [OF k this] k
    show "\<exists>r. attempt (sample_platform ?script) ?enc [] corsProxies k = Inr r \<and> status r = 503"
      by (auto simp: length_corsProxies less_3_cases http_response_def)
  qed
  show ?thesis
    using try_block_all_status [OF sample_enc nonempty all not_ok_503]
    by (simp add: Number_toString_503 lit_append [symmetric])
qed

lemma sample_fetch: "fetch (sample_platform script) hist req = scripted_fetch script hist req"
  by (simp add: sample_platform_def)

lemma sample_try_block_all_faults:
  "try_block (sample_platform [transport_fault, transport_fault, transport_fault])
     (url sample_state) corsProxies =
     (map (\<lambda>q. request_init (q @ lit ''https%3A%2F%2Fexample.com'')) corsProxies,
      Inl (Error (lit ''Failed to fetch: Network error'')))"
  by (simp add: try_block_def corsProxies_def sample_enc sample_fetch scripted_fetch_def
      transport_fault_def status_or_network_error_def lit_append [symmetric])

lemma sample_try_block_503_then_faults:
  "try_block (sample_platform [http_response 503 ''busy'', transport_fault, transport_fault])
     (url sample_state) corsProxies =
     (map (\<lambda>q. request_init (q @ lit ''https%3A%2F%2Fexample.com'')) corsProxies,
      Inl (Error (lit ''Failed to fetch: 503'')))"
  by (simp add: try_block_def corsProxies_def sample_enc sample_fetch scripted_fetch_def
      transport_fault_def http_response_def ok_def status_or_network_error_def
      Number_toString_503 lit_append [symmetric])

lemma network_error_text_lacks_cause:
  "\<not> js_includes (lit ''Failed to fetch page content. This might be due to CORS restrictions or the page being unavailable. Error: Failed to fetch: Network error'') (lit ''connection refused'')"
  by (simp add: lit_def)

subsection \<open>How a run that passed the checks can end\<close>

lemma proxy_loop_encode_throws_response:
  "encodeURIComponent P target = Inl e \<Longrightarrow> response (proxy_loop P target ps v) = response v"
  by (induction ps arbitrary: v) simp_all

lemma first_success_or_none:
  fixes n :: nat
  shows "(\<forall>k<n. \<not> Q k) \<or> (\<exists>k<n. Q k \<and> (\<forall>j<k. \<not> Q j))"
proof (cases "\<exists>k. k < n \<and> Q k")
  case True
  then obtain k where "k < n \<and> Q k" "\<forall>m<k. \<not> (m < n \<and> Q m)"
    using exists_least_iff [of "\<lambda>k. k < n \<and> Q k"] by blast
  then have "k < n" "Q k" "\<forall>j<k. \<not> Q j" by auto
  then show ?thesis by blast
next
  case False
  then show ?thesis by blast
qed

lemma proxy_loop_exhausted:
  assumes "encodeURIComponent P target = Inr enc"
    and "\<forall>k<length ps. \<not> succeeded (attempt P enc (requests v) ps k)"
  shows "requests (proxy_loop P target ps v) =
           requests v @ map (\<lambda>q. request_init (q @ enc)) ps
       \<and> ((\<forall>k<length ps. isl (attempt P enc (requests v) ps k))
            \<and> response (proxy_loop P target ps v) = response v
          \<or> (\<exists>k<length ps. \<exists>r. attempt P enc (requests v) ps k = Inr r
               \<and> (\<forall>j<length ps. k < j \<longrightarrow> isl (attempt P enc (requests v) ps j))
               \<and> response (proxy_loop P target ps v) = Some r))"
  using assms
proof (induction ps arbitrary: v)
  case Nil
  then show ?case by simp
next
  case (Cons p rest)
  let ?rq = "request_init (p @ enc)"
  let ?h = "requests v @ [?rq]"
  from Cons.prems(2) have first: "\<not> succeeded (fetch P (requests v) ?rq)"
    using attempt_0 [of P enc "requests v" p rest] by auto
  from Cons.prems(2)
  have later: "\<forall>k<length rest. \<not> succeeded (attempt P enc ?h rest k)"
    by (auto simp: attempt_Suc [symmetric])
  have step: "requests (proxy_loop P target rest v') =
           requests v @ map (\<lambda>q. request_init (q @ enc)) (p # rest)
       \<and> ((\<forall>k<length rest. isl (attempt P enc (requests v) (p # rest) (Suc k)))
            \<and> response (proxy_loop P target rest v') = response v'
          \<or> (\<exists>k<length rest. \<exists>r. attempt P enc (requests v) (p # rest) (Suc k) = Inr r
               \<and> (\<forall>j<length rest. k < j \<longrightarrow> isl (attempt P enc (requests v) (p # rest) (Suc j)))
               \<and> response (proxy_loop P target rest v') = Some r))"
    if "requests v' = ?h" for v'
    using Cons.IH [OF Cons.prems(1), of v'] later that by (simp add: attempt_Suc)
  have shift: "(\<forall>j<length (p # rest). k < j \<longrightarrow> Q j) \<longleftrightarrow> (\<forall>j<length rest. k < Suc j \<longrightarrow> Q (Suc j))"
    for k and Q :: "nat \<Rightarrow> bool"
  proof
    assume "\<forall>j<length (p # rest). k < j \<longrightarrow> Q j"
    then show "\<forall>j<length rest. k < Suc j \<longrightarrow> Q (Suc j)" by simp
  next
    assume a: "\<forall>j<length rest. k < Suc j \<longrightarrow> Q (Suc j)"
    show "\<forall>j<length (p # rest). k < j \<longrightarrow> Q j"
    proof (intro allI impI)
      fix j assume "j < length (p # rest)" "k < j"
      then obtain j' where "j = Suc j'" "j' < length rest" by (cases j) auto
      with a \<open>k < j\<close> show "Q j" by simp
    qed
  qed
  show ?case
  proof (cases "fetch P (requests v) ?rq")
    case (Inl err)
    let ?v' = "v\<lparr>lastError := Some err, requests := ?h\<rparr>"
    have loop: "proxy_loop P target (p # rest) v = proxy_loop P target rest ?v'"
      using Inl Cons.prems(1) by simp
    from step [of ?v'] have reqs: "requests (proxy_loop P target rest ?v') =
           requests v @ map (\<lambda>q. request_init (q @ enc)) (p # rest)"
      and alt: "(\<forall>k<length rest. isl (attempt P enc (requests v) (p # rest) (Suc k)))
            \<and> response (proxy_loop P target rest ?v') = response v
          \<or> (\<exists>k<length rest. \<exists>r. attempt P enc (requests v) (p # rest) (Suc k) = Inr r
               \<and> (\<forall>j<length rest. k < j \<longrightarrow> isl (attempt P enc (requests v) (p # rest) (Suc j)))
               \<and> response (proxy_loop P target rest ?v') = Some r)"
      by simp_all
    from alt show ?thesis
    proof
      assume a: "(\<forall>k<length rest. isl (attempt P enc (requests v) (p # rest) (Suc k)))
            \<and> response (proxy_loop P target rest ?v') = response v"
      have "\<forall>k<length (p # rest). isl (attempt P enc (requests v) (p # rest) k)"
      proof (intro allI impI)
        fix k assume "k < length (p # rest)"
        then show "isl (attempt P enc (requests v) (p # rest) k)"
          using a Inl by (cases k) (auto simp: attempt_0)
      qed
      with a reqs loop show ?thesis by simp
    next
      assume "\<exists>k<length rest. \<exists>r. attempt P enc (requests v) (p # rest) (Suc k) = Inr r
               \<and> (\<forall>j<length rest. k < j \<longrightarrow> isl (attempt P enc (requests v) (p # rest) (Suc j)))
               \<and> response (proxy_loop P target rest ?v') = Some r"
      then obtain k r where k: "k < length rest"
        "attempt P enc (requests v) (p # rest) (Suc k) = Inr r"
        "\<forall>j<length rest. k < j \<longrightarrow> isl (attempt P enc (requests v) (p # rest) (Suc j))"
        "response (proxy_loop P target rest ?v') = Some r"
        by blast
      from k(3) have "\<forall>j<length (p # rest). Suc k < j \<longrightarrow> isl (attempt P enc (requests v) (p # rest) j)"
        unfolding shift by simp
      with k reqs loop have "\<exists>k'<length (p # rest). \<exists>r. attempt P enc (requests v) (p # rest) k' = Inr r
               \<and> (\<forall>j<length (p # rest). k' < j \<longrightarrow> isl (attempt P enc (requests v) (p # rest) j))
               \<and> response (proxy_loop P target (p # rest) v) = Some r"
        by (intro exI [of _ "Suc k"]) simp
      with reqs loop show ?thesis by simp
    qed
  next
    case (Inr r0)
    with first have nok: "\<not> ok r0" by (simp add: succeeded_def)
    let ?v' = "v\<lparr>response := Some r0, requests := ?h\<rparr>"
    have loop: "proxy_loop P target (p # rest) v = proxy_loop P target rest ?v'"
      using Inr nok Cons.prems(1) by simp
    from step [of ?v'] have reqs: "requests (proxy_loop P target rest ?v') =
           requests v @ map (\<lambda>q. request_init (q @ enc)) (p # rest)"
      and alt: "(\<forall>k<length rest. isl (attempt P enc (requests v) (p # rest) (Suc k)))
            \<and> response (proxy_loop P target rest ?v') = Some r0
          \<or> (\<exists>k<length rest. \<exists>r. attempt P enc (requests v) (p # rest) (Suc k) = Inr r
               \<and> (\<forall>j<length rest. k < j \<longrightarrow> isl (attempt P enc (requests v) (p # rest) (Suc j)))
               \<and> response (proxy_loop P target rest ?v') = Some r)"
      by simp_all
    from alt have "\<exists>k'<length (p # rest). \<exists>r. attempt P enc (requests v) (p # rest) k' = Inr r
               \<and> (\<forall>j<length (p # rest). k' < j \<longrightarrow> isl (attempt P enc (requests v) (p # rest) j))
               \<and> response (proxy_loop P target (p # rest) v) = Some r"
    proof
      assume a: "(\<forall>k<length rest. isl (attempt P enc (requests v) (p # rest) (Suc k)))
            \<and> response (proxy_loop P target rest ?v') = Some r0"
      then have "\<forall>j<length (p # rest). 0 < j \<longrightarrow> isl (attempt P enc (requests v) (p # rest) j)"
        unfolding shift by simp
      with a Inr loop show ?thesis
        by (intro exI [of _ 0]) (simp add: attempt_0)
    next
      assume "\<exists>k<length rest. \<exists>r. attempt P enc (requests v) (p # rest) (Suc k) = Inr r
               \<and> (\<forall>j<length rest. k < j \<longrightarrow> isl (attempt P enc (requests v) (p # rest) (Suc j)))
               \<and> response (proxy_loop P target rest ?v') = Some r"
      then obtain k r where k: "k < length rest"
        "attempt P enc (requests v) (p # rest) (Suc k) = Inr r"
        "\<forall>j<length rest. k < j \<longrightarrow> isl (attempt P enc (requests v) (p # rest) (Suc j))"
        "response (proxy_loop P target rest ?v') = Some r"
        by blast
      from k(3) have "\<forall>j<length (p # rest). Suc k < j \<longrightarrow> isl (attempt P enc (requests v) (p # rest) j)"
        unfolding shift by simp
      with k loop show ?thesis
        by (intro exI [of _ "Suc k"]) simp
    qed
    with reqs loop show ?thesis by simp
  qed
qed


lemma try_block_exhausted:
  assumes "encodeURIComponent P target = Inr enc"
    and "\<forall>k<length proxies. \<not> succeeded (attempt P enc [] proxies k)"
  shows "\<exists>detail.
           try_block P target proxies =
             (map (\<lambda>q. request_init (q @ enc)) proxies,
              Inl (Error (lit ''Failed to fetch: '' @ detail)))
         \<and> ((\<forall>k<length proxies. isl (attempt P enc [] proxies k))
              \<and> detail = lit ''Network error''
            \<or> (\<exists>k<length proxies. \<exists>r. attempt P enc [] proxies k = Inr r
                 \<and> (\<forall>j<length proxies. k < j \<longrightarrow> isl (attempt P enc [] proxies j))
                 \<and> detail = (if status r = 0 then lit ''Network error''
                             else Number_toString (int (status r)))))"
proof -
  let ?init = "\<lparr>response = None, lastError = None, requests = []\<rparr>"
  let ?final = "proxy_loop P target proxies ?init"
  from proxy_loop_exhausted [where ps = proxies and v = ?init, OF assms(1)] assms(2)
  have reqs: "requests ?final = map (\<lambda>q. request_init (q @ enc)) proxies"
    and alt: "(\<forall>k<length proxies. isl (attempt P enc [] proxies k)) \<and> response ?final = None
          \<or> (\<exists>k<length proxies. \<exists>r. attempt P enc [] proxies k = Inr r
               \<and> (\<forall>j<length proxies. k < j \<longrightarrow> isl (attempt P enc [] proxies j))
               \<and> response ?final = Some r)"
    by simp_all
  from alt show ?thesis
  proof
    assume a: "(\<forall>k<length proxies. isl (attempt P enc [] proxies k)) \<and> response ?final = None"
    with reqs have "try_block P target proxies =
             (map (\<lambda>q. request_init (q @ enc)) proxies,
              Inl (Error (lit ''Failed to fetch: '' @ lit ''Network error'')))"
      by (simp add: try_block_def Let_def status_or_network_error_def)
    with a show ?thesis by blast
  next
    assume "\<exists>k<length proxies. \<exists>r. attempt P enc [] proxies k = Inr r
               \<and> (\<forall>j<length proxies. k < j \<longrightarrow> isl (attempt P enc [] proxies j))
               \<and> response ?final = Some r"
    then obtain k r where k: "k < length proxies" "attempt P enc [] proxies k = Inr r"
      "\<forall>j<length proxies. k < j \<longrightarrow> isl (attempt P enc [] proxies j)" "response ?final = Some r"
      by blast
    from assms(2) k(1,2) have "\<not> ok r" by (auto simp: succeeded_def)
    with reqs k(4) have "try_block P target proxies =
             (map (\<lambda>q. request_init (q @ enc)) proxies,
              Inl (Error (lit ''Failed to fetch: '' @
                 (if status r = 0 then lit ''Network error'' else Number_toString (int (status r))))))"
      by (simp add: try_block_def Let_def status_or_network_error_def)
    with k(1-3) show ?thesis by blast
  qed
qed

lemma try_block_encode_throws:
  assumes "encodeURIComponent P target = Inl e"
  shows "try_block P target proxies = ([], Inl (Error (lit ''Failed to fetch: Network error'')))"
  using proxy_loop_encode_throws [OF assms, of proxies "\<lparr>response = None, lastError = None, requests = []\<rparr>"]
    proxy_loop_encode_throws_response [OF assms, of proxies "\<lparr>response = None, lastError = None, requests = []\<rparr>"]
  by (simp add: try_block_def Let_def status_or_network_error_def lit_append [symmetric])

lemma fetchPageContentWith_unreadable:
  assumes "trim (url st) \<noteq> []" and "isValidUrl P (url st) = Inr True"
    and "encodeURIComponent P (url st) = Inr enc"
    and "k < length proxies"
    and "\<forall>j<k. \<not> succeeded (attempt P enc [] proxies j)"
    and "attempt P enc [] proxies k = Inr r"
    and "ok r"
    and "text_result r = Inl err"
  shows "fetchPageContentWith P proxies st =
           Inr ([SetLoading True, SetError [], SetHtmlContent []]
                @ map (\<lambda>q. Fetch (request_init (q @ enc))) (take (Suc k) proxies)
                @ [ConsoleError (lit ''Error fetching page:'') err,
                   SetError (failure_text @ (case err of Error m \<Rightarrow> m | NonError \<Rightarrow> lit ''Unknown error'')),
                   SetLoading False])"
  using fetchPageContentWith_valid [OF assms(1,2), of proxies]
    try_block_first_success [OF assms(3-7)] assms(8)
  by (simp add: comp_def catch_block_def)

lemma fetchPageContentWith_exhausted:
  assumes "trim (url st) \<noteq> []" and "isValidUrl P (url st) = Inr True"
    and "encodeURIComponent P (url st) = Inr enc"
    and "\<forall>k<length proxies. \<not> succeeded (attempt P enc [] proxies k)"
  shows "\<exists>detail.
           fetchPageContentWith P proxies st =
             Inr ([SetLoading True, SetError [], SetHtmlContent []]
                  @ map (\<lambda>q. Fetch (request_init (q @ enc))) proxies
                  @ [ConsoleError (lit ''Error fetching page:'')
                       (Error (lit ''Failed to fetch: '' @ detail)),
                     SetError (failure_text @ lit ''Failed to fetch: '' @ detail),
                     SetLoading False])
         \<and> ((\<forall>k<length proxies. isl (attempt P enc [] proxies k))
              \<and> detail = lit ''Network error''
            \<or> (\<exists>k<length proxies. \<exists>r. attempt P enc [] proxies k = Inr r
                 \<and> (\<forall>j<length proxies. k < j \<longrightarrow> isl (attempt P enc [] proxies j))
                 \<and> detail = (if status r = 0 then lit ''Network error''
                             else Number_toString (int (status r)))))"
proof -
  from try_block_exhausted [OF assms(3,4)] obtain detail where
    tb: "try_block P (url st) proxies =
             (map (\<lambda>q. request_init (q @ enc)) proxies,
              Inl (Error (lit ''Failed to fetch: '' @ detail)))"
    and d: "(\<forall>k<length proxies. isl (attempt P enc [] proxies k))
              \<and> detail = lit ''Network error''
            \<or> (\<exists>k<length proxies. \<exists>r. attempt P enc [] proxies k = Inr r
                 \<and> (\<forall>j<length proxies. k < j \<longrightarrow> isl (attempt P enc [] proxies j))
                 \<and> detail = (if status r = 0 then lit ''Network error''
                             else Number_toString (int (status r))))"
    by blast
  have "fetchPageContentWith P proxies st =
             Inr ([SetLoading True, SetError [], SetHtmlContent []]
                  @ map (\<lambda>q. Fetch (request_init (q @ enc))) proxies
                  @ [ConsoleError (lit ''Error fetching page:'')
                       (Error (lit ''Failed to fetch: '' @ detail)),
                     SetError (failure_text @ lit ''Failed to fetch: '' @ detail),
                     SetLoading False])"
    using fetchPageContentWith_valid [OF assms(1,2), of proxies]
    by (simp add: tb comp_def catch_block_def)
  with d show ?thesis by blast
qed

lemma fetchPageContentWith_encode_throws:
  assumes "trim (url st) \<noteq> []" and "isValidUrl P (url st) = Inr True"
    and "encodeURIComponent P (url st) = Inl e"
  shows "fetchPageContentWith P proxies st =
           Inr [SetLoading True, SetError [], SetHtmlContent [],
                ConsoleError (lit ''Error fetching page:'')
                  (Error (lit ''Failed to fetch: Network error'')),
                SetError (failure_text @ lit ''Failed to fetch: Network error''),
                SetLoading False]"
  using fetchPageContentWith_valid [OF assms(1,2), of proxies]
  by (simp add: try_block_encode_throws [OF assms(3)] catch_block_def)

section \<open>The claims\<close>

text \<open>
  C3.  \<open>isValidUrl\<close> never throws: it returns a boolean, which is true exactly when
  \<^verbatim>\<open>new URL\<close> parses the input and the scheme of the parsed URL is \<open>http\<close> or
  \<open>https\<close>, compared as the parser delivers it.  A parse failure gives false, a parsed
  URL of scheme \<open>ftp\<close> or \<open>file\<close> gives false, one of scheme \<open>http\<close> or
  \<open>https\<close> gives true.  The function reads no state and has no effect.
\<close>

theorem isValidUrl_http_https_only:
  "isValidUrl P s =
     Inr (\<exists>u. URL_new P s = Inr u \<and> (scheme u = lit ''http'' \<or> scheme u = lit ''https''))
   \<and> (\<forall>e. URL_new P s = Inl e \<longrightarrow> isValidUrl P s = Inr False)
   \<and> (\<forall>u. URL_new P s = Inr u \<and> (scheme u = lit ''ftp'' \<or> scheme u = lit ''file'')
          \<longrightarrow> isValidUrl P s = Inr False)
   \<and> (\<forall>u. URL_new P s = Inr u \<and> (scheme u = lit ''http'' \<or> scheme u = lit ''https'')
          \<longrightarrow> isValidUrl P s = Inr True)"
  unfolding isValidUrl_eq using scheme_literals_distinct by auto

theorem isValidUrl_http_https_only_witness:
  "isValidUrl (sample_platform []) (lit ''https://example.com'') = Inr True
   \<and> isValidUrl (sample_platform []) (lit ''http://example.com/path?q=1'') = Inr True
   \<and> isValidUrl (sample_platform []) (lit ''ftp://example.com/pub'') = Inr False
   \<and> isValidUrl (sample_platform []) (lit ''file:///etc/hosts'') = Inr False
   \<and> isValidUrl (sample_platform []) (lit ''not a url'') = Inr False
   \<and> isValidUrl (sample_platform []) [] = Inr False"
proof -
  have p: "URL_new (sample_platform []) = sample_URL_new"
    by (simp add: sample_platform_def)
  have a: "sample_URL_new (lit ''https://example.com'') = Inr \<lparr>scheme = lit ''https''\<rparr>"
    by (simp add: sample_URL_new_def)
  have b: "sample_URL_new (lit ''http://example.com/path?q=1'') = Inr \<lparr>scheme = lit ''http''\<rparr>"
    by (simp add: sample_URL_new_def lit_def)
  have c: "sample_URL_new (lit ''ftp://example.com/pub'') = Inr \<lparr>scheme = lit ''ftp''\<rparr>"
    by (simp add: sample_URL_new_def lit_def)
  have d: "sample_URL_new (lit ''file:///etc/hosts'') = Inr \<lparr>scheme = lit ''file''\<rparr>"
    by (simp add: sample_URL_new_def lit_def)
  have e: "sample_URL_new (lit ''not a url'') = Inl (Error (lit ''Invalid URL''))"
    by (simp add: sample_URL_new_def lit_def)
  have f: "sample_URL_new [] = Inl (Error (lit ''Invalid URL''))"
    by (simp add: sample_URL_new_def lit_def)
  show ?thesis
    using isValidUrl_http_https_only [of "sample_platform []" "lit ''https://example.com''"]
      isValidUrl_http_https_only [of "sample_platform []" "lit ''http://example.com/path?q=1''"]
      isValidUrl_http_https_only [of "sample_platform []" "lit ''ftp://example.com/pub''"]
      isValidUrl_http_https_only [of "sample_platform []" "lit ''file:///etc/hosts''"]
      isValidUrl_http_https_only [of "sample_platform []" "lit ''not a url''"]
      isValidUrl_http_https_only [of "sample_platform []" "[]"]
    by (simp add: p a b c d e f scheme_literals_distinct)
qed

text \<open>
  C1.  When the input passes both checks and the proxy at position \<open>k\<close> is the first
  whose request is answered by a response with \<^verbatim>\<open>ok\<close> set, whose text reads as
  \<open>B\<close>, the handler issues the requests for the proxies up to position \<open>k\<close> and no
  other, then sets the HTML content to \<open>B\<close> and the last fetched URL to the URL entered
  (not to the URL requested from the proxy); no error is set.
\<close>

theorem first_success_stops_the_loop:
  assumes "trim (url st) \<noteq> []" and "isValidUrl P (url st) = Inr True"
    and "encodeURIComponent P (url st) = Inr enc"
    and "k < length proxies"
    and "\<forall>j<k. \<not> succeeded (attempt P enc [] proxies j)"
    and "attempt P enc [] proxies k = Inr r"
    and "ok r"
    and "text_result r = Inr B"
  shows "\<exists>t. fetchPageContentWith P proxies st = Inr t
           \<and> filter isFetch t = map (\<lambda>q. Fetch (request_init (q @ enc))) (take (Suc k) proxies)
           \<and> t = [SetLoading True, SetError [], SetHtmlContent []]
                 @ map (\<lambda>q. Fetch (request_init (q @ enc))) (take (Suc k) proxies)
                 @ [SetHtmlContent B, SetLastFetchedUrl (url st), SetLoading False]
           \<and> htmlContent (run st t) = B
           \<and> lastFetchedUrl (run st t) = url st
           \<and> error (run st t) = []
           \<and> loading (run st t) = False"
  using fetchPageContentWith_first_success [OF assms]
  by (simp add: run_simps filter_isFetch_map)

theorem first_success_stops_the_loop_witness:
  "fetchPageContent (sample_platform [http_response 200 ''<html>A</html>'']) sample_state =
     Inr [SetLoading True, SetError [], SetHtmlContent [],
          Fetch (request_init (lit ''https://api.allorigins.win/raw?url=https%3A%2F%2Fexample.com'')),
          SetHtmlContent (lit ''<html>A</html>''),
          SetLastFetchedUrl (lit ''https://example.com''),
          SetLoading False]"
proof -
  let ?P = "sample_platform [http_response 200 ''<html>A</html>'']"
  let ?r = "\<lparr>status = 200, text_result = Inr (lit ''<html>A</html>'')\<rparr>"
  have k: "0 < length corsProxies" by (simp add: length_corsProxies)
  have none: "\<forall>j<0. \<not> succeeded (attempt ?P (lit ''https%3A%2F%2Fexample.com'') [] corsProxies j)"
    by simp
  have at: "attempt ?P (lit ''https%3A%2F%2Fexample.com'') [] corsProxies 0 = Inr ?r"
    using sample_attempt [OF k, of "[http_response 200 ''<html>A</html>'']"]
    by (simp add: http_response_def)
  have okr: "ok ?r" by (simp add: ok_def)
  have body: "text_result ?r = Inr (lit ''<html>A</html>'')" by simp
  have first: "take (Suc 0) corsProxies = [lit ''https://api.allorigins.win/raw?url='']"
    by (simp add: corsProxies_def)
  from first_success_stops_the_loop [OF sample_trim sample_valid sample_enc k none at okr body]
  show ?thesis
    by (simp add: fetchPageContent_def first lit_append [symmetric] sample_state_def)
qed

text \<open>
  C5.  When the input passes both checks and the request for every proxy of a non-empty
  list (the component's own list has three) is answered with status 503, the run issues
  the request for each proxy in order and ends in the error message whose detail is
  \<open>Failed to fetch: 503\<close>.
\<close>

theorem all_503_reports_503:
  assumes "trim (url st) \<noteq> []" and "isValidUrl P (url st) = Inr True"
    and "encodeURIComponent P (url st) = Inr enc"
    and "proxies \<noteq> []"
    and "\<forall>k<length proxies. \<exists>r. attempt P enc [] proxies k = Inr r \<and> status r = 503"
  shows "\<exists>t. fetchPageContentWith P proxies st = Inr t
           \<and> t = [SetLoading True, SetError [], SetHtmlContent []]
                 @ map (\<lambda>q. Fetch (request_init (q @ enc))) proxies
                 @ [ConsoleError (lit ''Error fetching page:'') (Error (lit ''Failed to fetch: 503'')),
                    SetError (failure_text @ lit ''Failed to fetch: 503''),
                    SetLoading False]
           \<and> error (run st t) = failure_text @ lit ''Failed to fetch: 503''
           \<and> js_includes (error (run st t)) (lit ''503'')"
proof -
  have tb: "try_block P (url st) proxies =
           (map (\<lambda>q. request_init (q @ enc)) proxies,
            Inl (Error (lit ''Failed to fetch: 503'')))"
    using try_block_all_status [OF assms(3,4,5) not_ok_503]
    by (simp add: Number_toString_503 lit_append [symmetric])
  show ?thesis
    using fetchPageContentWith_valid [OF assms(1,2), of proxies] mentions_503
    by (simp add: tb catch_block_def run_simps comp_def)
qed

theorem all_503_reports_503_witness:
  "fetchPageContent
     (sample_platform [http_response 503 ''busy'', http_response 503 ''busy'', http_response 503 ''busy''])
     sample_state =
     Inr [SetLoading True, SetError [], SetHtmlContent [],
          Fetch (request_init (lit ''https://api.allorigins.win/raw?url=https%3A%2F%2Fexample.com'')),
          Fetch (request_init (lit ''https://cors-anywhere.herokuapp.com/https%3A%2F%2Fexample.com'')),
          Fetch (request_init (lit ''https://corsproxy.io/?https%3A%2F%2Fexample.com'')),
          ConsoleError (lit ''Error fetching page:'') (Error (lit ''Failed to fetch: 503'')),
          SetError (lit ''Failed to fetch page content. This might be due to CORS restrictions or the page being unavailable. Error: Failed to fetch: 503''),
          SetLoading False]"
proof -
  let ?script = "[http_response 503 ''busy'', http_response 503 ''busy'', http_response 503 ''busy'']"
  let ?enc = "lit ''https%3A%2F%2Fexample.com''"
  have nonempty: "corsProxies \<noteq> []" by (simp add: corsProxies_def)
  have all: "\<forall>k<length corsProxies.
      \<exists>r. attempt (sample_platform ?script) ?enc [] corsProxies k = Inr r \<and> status r = 503"
  proof (intro allI impI)
    fix k assume k: "k < length corsProxies"
    then have "k < length ?script" by (simp add: length_corsProxies)
    from sample_attempt [OF k this] k
    show "\<exists>r. attempt (sample_platform ?script) ?enc [] corsProxies k = Inr r \<and> status r = 503"
      by (auto simp: length_corsProxies less_3_cases http_response_def)
  qed
  from all_503_reports_503 [OF sample_trim sample_valid sample_enc nonempty all]
  show ?thesis
    by (simp add: fetchPageContent_def corsProxies_def lit_append [symmetric] failure_text_def)
qed

text \<open>
  C6.  When the URL entered is empty or consists of white space only, or when
  \<open>isValidUrl\<close> rejects it, the handler does one thing: it sets the error to the message
  of the check that failed.  It issues no request and leaves the rest of the state as it
  was.
\<close>

theorem invalid_input_makes_no_request:
  assumes "(\<forall>c\<in>set (url st). isWhiteSpace c) \<or> isValidUrl P (url st) = Inr False"
  shows "\<exists>msg. fetchPageContentWith P proxies st = Inr [SetError msg]
           \<and> msg = (if trim (url st) = [] then lit ''Please enter a valid URL''
                    else lit ''Please enter a valid HTTP/HTTPS URL'')
           \<and> msg \<noteq> []
           \<and> filter isFetch [SetError msg] = []
           \<and> run st [SetError msg] = st\<lparr>error := msg\<rparr>"
proof (cases "trim (url st) = []")
  case True
  then show ?thesis
    using validation_messages_not_empty
    by (simp add: fetchPageContentWith_def run_simps)
next
  case False
  with assms have "isValidUrl P (url st) = Inr False"
    by (auto simp: trim_Nil_iff)
  with False show ?thesis
    using validation_messages_not_empty
    by (simp add: fetchPageContentWith_def run_simps)
qed

theorem invalid_input_makes_no_request_witness:
  "fetchPageContent (sample_platform [http_response 200 ''<html>A</html>''])
     (sample_state\<lparr>url := lit ''   ''\<rparr>) = Inr [SetError (lit ''Please enter a valid URL'')]
   \<and> fetchPageContent (sample_platform [http_response 200 ''<html>A</html>''])
     (sample_state\<lparr>url := []\<rparr>) = Inr [SetError (lit ''Please enter a valid URL'')]
   \<and> fetchPageContent (sample_platform [http_response 200 ''<html>A</html>''])
     (sample_state\<lparr>url := lit ''ftp://example.com/pub''\<rparr>) =
       Inr [SetError (lit ''Please enter a valid HTTP/HTTPS URL'')]"
proof -
  let ?P = "sample_platform [http_response 200 ''<html>A</html>'']"
  have blank: "(\<forall>c\<in>set (url (sample_state\<lparr>url := lit ''   ''\<rparr>)). isWhiteSpace c)
      \<or> isValidUrl ?P (url (sample_state\<lparr>url := lit ''   ''\<rparr>)) = Inr False"
    by (simp add: lit_def isWhiteSpace_def)
  have empty: "(\<forall>c\<in>set (url (sample_state\<lparr>url := []\<rparr>)). isWhiteSpace c)
      \<or> isValidUrl ?P (url (sample_state\<lparr>url := []\<rparr>)) = Inr False"
    by simp
  have ftp: "(\<forall>c\<in>set (url (sample_state\<lparr>url := lit ''ftp://example.com/pub''\<rparr>)). isWhiteSpace c)
      \<or> isValidUrl ?P (url (sample_state\<lparr>url := lit ''ftp://example.com/pub''\<rparr>)) = Inr False"
    using scheme_literals_distinct
    by (simp add: isValidUrl_eq sample_platform_def sample_URL_new_def lit_def)
  have t1: "trim (lit ''   '') = []" by (simp add: trim_def lit_def isWhiteSpace_def)
  have t2: "trim [] = []" by (simp add: trim_def)
  have t3: "trim (lit ''ftp://example.com/pub'') \<noteq> []"
    by (simp add: trim_def lit_def isWhiteSpace_def)
  from invalid_input_makes_no_request [OF blank, of corsProxies]
    invalid_input_makes_no_request [OF empty, of corsProxies]
    invalid_input_makes_no_request [OF ftp, of corsProxies]
  show ?thesis
    by (simp add: fetchPageContent_def t1 t2 t3)
qed



text \<open>
  C10.  A run that passed both checks starts with the setters that clear the error and
  the HTML content, and issues its requests only after them.  When the \<^verbatim>\<open>try\<close> block
  ends in a throw, the state the run leaves has an empty HTML content, the error message
  of the \<^verbatim>\<open>catch\<close> block, and the last fetched URL it had before the run.
\<close>

theorem fetch_clears_content_before_trying:
  assumes "trim (url st) \<noteq> []" and "isValidUrl P (url st) = Inr True"
  shows "\<exists>reqs rest. fetchPageContentWith P proxies st =
             Inr ([SetLoading True, SetError [], SetHtmlContent []] @ map Fetch reqs @ rest)
           \<and> filter isFetch rest = []
           \<and> htmlContent (run st [SetLoading True, SetError [], SetHtmlContent []]) = []
           \<and> error (run st [SetLoading True, SetError [], SetHtmlContent []]) = []
           \<and> (\<forall>err. snd (try_block P (url st) proxies) = Inl err \<longrightarrow>
                 rest = catch_block err @ [SetLoading False]
                 \<and> htmlContent (run st ([SetLoading True, SetError [], SetHtmlContent []]
                                        @ map Fetch reqs @ rest)) = []
                 \<and> lastFetchedUrl (run st ([SetLoading True, SetError [], SetHtmlContent []]
                                           @ map Fetch reqs @ rest)) = lastFetchedUrl st
                 \<and> error (run st ([SetLoading True, SetError [], SetHtmlContent []]
                                  @ map Fetch reqs @ rest))
                     = failure_text @ (case err of Error m \<Rightarrow> m | NonError \<Rightarrow> lit ''Unknown error'')
                 \<and> loading (run st ([SetLoading True, SetError [], SetHtmlContent []]
                                    @ map Fetch reqs @ rest)) = False)"
proof -
  let ?reqs = "fst (try_block P (url st) proxies)"
  let ?rest = "(case snd (try_block P (url st) proxies) of
                     Inr html \<Rightarrow> [SetHtmlContent html, SetLastFetchedUrl (url st)]
                   | Inl err \<Rightarrow> catch_block err) @ [SetLoading False]"
  have "fetchPageContentWith P proxies st =
             Inr ([SetLoading True, SetError [], SetHtmlContent []] @ map Fetch ?reqs @ ?rest)"
    using fetchPageContentWith_valid [OF assms, of proxies] by simp
  moreover have "filter isFetch ?rest = []"
    by (simp add: catch_block_def split: sum.splits)
  moreover have "htmlContent (run st [SetLoading True, SetError [], SetHtmlContent []]) = []"
    "error (run st [SetLoading True, SetError [], SetHtmlContent []]) = []"
    by (simp_all add: run_simps)
  moreover have "?rest = catch_block err @ [SetLoading False]
                 \<and> htmlContent (run st ([SetLoading True, SetError [], SetHtmlContent []]
                                        @ map Fetch ?reqs @ ?rest)) = []
                 \<and> lastFetchedUrl (run st ([SetLoading True, SetError [], SetHtmlContent []]
                                           @ map Fetch ?reqs @ ?rest)) = lastFetchedUrl st
                 \<and> error (run st ([SetLoading True, SetError [], SetHtmlContent []]
                                  @ map Fetch ?reqs @ ?rest))
                     = failure_text @ (case err of Error m \<Rightarrow> m | NonError \<Rightarrow> lit ''Unknown error'')
                 \<and> loading (run st ([SetLoading True, SetError [], SetHtmlContent []]
                                    @ map Fetch ?reqs @ ?rest)) = False"
    if "snd (try_block P (url st) proxies) = Inl err" for err
    using that by (simp add: run_simps catch_block_def)
  ultimately show ?thesis by blast
qed

theorem fetch_clears_content_before_trying_witness:
  "\<exists>t. fetchPageContent
          (sample_platform [http_response 503 ''busy'', http_response 503 ''busy'', http_response 503 ''busy''])
          sample_state = Inr t
     \<and> htmlContent sample_state = lit ''<p>old</p>''
     \<and> htmlContent (run sample_state t) = []
     \<and> lastFetchedUrl (run sample_state t) = lit ''https://old.example''
     \<and> error (run sample_state t) = failure_text @ lit ''Failed to fetch: 503''"
proof -
  let ?script = "[http_response 503 ''busy'', http_response 503 ''busy'', http_response 503 ''busy'']"
  let ?P = "sample_platform ?script"
  from fetch_clears_content_before_trying [OF sample_trim sample_valid [of ?script], of corsProxies]
  obtain reqs rest where run: "fetchPageContentWith ?P corsProxies sample_state =
             Inr ([SetLoading True, SetError [], SetHtmlContent []] @ map Fetch reqs @ rest)"
    and failure: "\<forall>err. snd (try_block ?P (url sample_state) corsProxies) = Inl err \<longrightarrow>
                 rest = catch_block err @ [SetLoading False]
                 \<and> htmlContent (run sample_state ([SetLoading True, SetError [], SetHtmlContent []]
                                        @ map Fetch reqs @ rest)) = []
                 \<and> lastFetchedUrl (run sample_state ([SetLoading True, SetError [], SetHtmlContent []]
                                           @ map Fetch reqs @ rest)) = lastFetchedUrl sample_state
                 \<and> error (run sample_state ([SetLoading True, SetError [], SetHtmlContent []]
                                  @ map Fetch reqs @ rest))
                     = failure_text @ (case err of Error m \<Rightarrow> m | NonError \<Rightarrow> lit ''Unknown error'')
                 \<and> loading (run sample_state ([SetLoading True, SetError [], SetHtmlContent []]
                                    @ map Fetch reqs @ rest)) = False"
    by blast
  have "snd (try_block ?P (url sample_state) corsProxies) = Inl (Error (lit ''Failed to fetch: 503''))"
    by (simp add: sample_try_block_all_503)
  with failure run show ?thesis
    by (auto simp: fetchPageContent_def sample_state_def)
qed

text \<open>
  C9.  When the HTML content held is the empty string, \<open>downloadHtml\<close> returns at once:
  it creates no blob, no object URL and no anchor, and triggers no download.
\<close>

theorem download_of_nothing_does_nothing:
  assumes "htmlContent st = []"
  shows "downloadHtml P st = []"
  using assms by (simp add: downloadHtml_def)

theorem download_of_nothing_does_nothing_witness:
  "downloadHtml (sample_platform []) (sample_state\<lparr>htmlContent := []\<rparr>) = []"
  using download_of_nothing_does_nothing [of "sample_state\<lparr>htmlContent := []\<rparr>" "sample_platform []"]
  by simp

text \<open>
  C8.  For the empty string \<open>downloadHtml\<close> produces nothing, so the export is not
  defined for every string.
\<close>

theorem download_empty_counterexample:
  "downloadHtml (sample_platform []) \<lparr>url = [], htmlContent = [], loading = False, error = [],
     lastFetchedUrl = []\<rparr> = []"
  by (simp add: downloadHtml_def)

text \<open>
  C8, as the code has it.  For every non-empty HTML content \<open>downloadHtml\<close> makes one
  blob of type \<open>text/html\<close> whose bytes are the UTF-8 encoding of the content, and
  offers it for download under the name \<open>page-\<close>, the clock reading, \<open>.html\<close>.  It
  issues no request, and what it does depends on the content, the clock and the object
  URL the browser hands out, not on the network, the URL parser or the encoder.
\<close>

theorem download_exports_html_as_utf8:
  assumes "htmlContent st \<noteq> []"
  shows "\<exists>blob a. downloadHtml P st =
           [NewBlob blob, CreateObjectURL blob, CreateElement (lit ''a''),
            AppendChild a, Click a, RemoveChild a, RevokeObjectURL (createObjectURL P blob)]
         \<and> blob_type blob = lit ''text/html''
         \<and> Blob_bytes blob = utf8_encode (htmlContent st)
         \<and> download a = lit ''page-'' @ Number_toString (Date_now P) @ lit ''.html''
         \<and> href a = createObjectURL P blob
         \<and> filter isFetch (downloadHtml P st) = []
         \<and> downloadHtml (P\<lparr>fetch := f, URL_new := g, encodeURIComponent := h\<rparr>) st = downloadHtml P st"
  using assms by (simp add: downloadHtml_def Let_def Blob_bytes_def)

theorem download_exports_html_as_utf8_witness:
  "\<exists>blob a. downloadHtml (sample_platform []) (sample_state\<lparr>htmlContent := lit ''<p>x</p>''\<rparr>) =
           [NewBlob blob, CreateObjectURL blob, CreateElement (lit ''a''),
            AppendChild a, Click a, RemoveChild a, RevokeObjectURL (lit ''blob:page-reader/1'')]
         \<and> blob_type blob = lit ''text/html''
         \<and> Blob_bytes blob = [60, 112, 62, 120, 60, 47, 112, 62]
         \<and> download a = lit ''page-1700000000000.html''"
proof -
  have ne: "htmlContent (sample_state\<lparr>htmlContent := lit ''<p>x</p>''\<rparr>) \<noteq> []"
    by (simp add: lit_def)
  have bytes: "utf8_encode (lit ''<p>x</p>'') = [60, 112, 62, 120, 60, 47, 112, 62]"
    by (simp add: utf8_encode_def utf8_of_scalar_def isLead_def isTrail_def lit_def)
  have name: "lit ''page-'' @ Number_toString 1700000000000 @ lit ''.html'' = lit ''page-1700000000000.html''"
    by (simp add: Number_toString_def digits.simps lit_def)
  have now: "Date_now (sample_platform []) = 1700000000000"
    "createObjectURL (sample_platform []) = (\<lambda>b. lit ''blob:page-reader/1'')"
    by (simp_all add: sample_platform_def)
  from download_exports_html_as_utf8 [OF ne, of "sample_platform []"]
  obtain blob a where
    "downloadHtml (sample_platform []) (sample_state\<lparr>htmlContent := lit ''<p>x</p>''\<rparr>) =
           [NewBlob blob, CreateObjectURL blob, CreateElement (lit ''a''),
            AppendChild a, Click a, RemoveChild a,
            RevokeObjectURL (createObjectURL (sample_platform []) blob)]"
    "blob_type blob = lit ''text/html''"
    "Blob_bytes blob = utf8_encode (htmlContent (sample_state\<lparr>htmlContent := lit ''<p>x</p>''\<rparr>))"
    "download a = lit ''page-'' @ Number_toString (Date_now (sample_platform [])) @ lit ''.html''"
    by blast
  then show ?thesis
    by (intro exI [of _ blob] exI [of _ a]) (simp add: bytes name now)
qed

text \<open>
  C2.  The handler at two inputs where no proxy succeeds.  When the three requests all
  throw an error whose message is \<open>connection refused\<close>, the error set is the fixed text
  followed by \<open>Failed to fetch: Network error\<close>: the message thrown, which the loop
  stored in \<^verbatim>\<open>lastError\<close>, is not part of it.  When the first request is answered with
  status 503 and the two after it throw, the error set reports 503, the status of the
  last response received, and again not the message thrown last.
\<close>

theorem transport_error_text_is_not_reported:
  "fetchPageContent (sample_platform [transport_fault, transport_fault, transport_fault]) sample_state =
     Inr [SetLoading True, SetError [], SetHtmlContent [],
          Fetch (request_init (lit ''https://api.allorigins.win/raw?url=https%3A%2F%2Fexample.com'')),
          Fetch (request_init (lit ''https://cors-anywhere.herokuapp.com/https%3A%2F%2Fexample.com'')),
          Fetch (request_init (lit ''https://corsproxy.io/?https%3A%2F%2Fexample.com'')),
          ConsoleError (lit ''Error fetching page:'') (Error (lit ''Failed to fetch: Network error'')),
          SetError (lit ''Failed to fetch page content. This might be due to CORS restrictions or the page being unavailable. Error: Failed to fetch: Network error''),
          SetLoading False]
   \<and> \<not> js_includes (lit ''Failed to fetch page content. This might be due to CORS restrictions or the page being unavailable. Error: Failed to fetch: Network error'') (lit ''connection refused'')
   \<and> fetchPageContent (sample_platform [http_response 503 ''busy'', transport_fault, transport_fault])
        sample_state =
     Inr [SetLoading True, SetError [], SetHtmlContent [],
          Fetch (request_init (lit ''https://api.allorigins.win/raw?url=https%3A%2F%2Fexample.com'')),
          Fetch (request_init (lit ''https://cors-anywhere.herokuapp.com/https%3A%2F%2Fexample.com'')),
          Fetch (request_init (lit ''https://corsproxy.io/?https%3A%2F%2Fexample.com'')),
          ConsoleError (lit ''Error fetching page:'') (Error (lit ''Failed to fetch: 503'')),
          SetError (lit ''Failed to fetch page content. This might be due to CORS restrictions or the page being unavailable. Error: Failed to fetch: 503''),
          SetLoading False]"
proof -
  have a: "fetchPageContent (sample_platform [transport_fault, transport_fault, transport_fault]) sample_state =
     Inr [SetLoading True, SetError [], SetHtmlContent [],
          Fetch (request_init (lit ''https://api.allorigins.win/raw?url=https%3A%2F%2Fexample.com'')),
          Fetch (request_init (lit ''https://cors-anywhere.herokuapp.com/https%3A%2F%2Fexample.com'')),
          Fetch (request_init (lit ''https://corsproxy.io/?https%3A%2F%2Fexample.com'')),
          ConsoleError (lit ''Error fetching page:'') (Error (lit ''Failed to fetch: Network error'')),
          SetError (lit ''Failed to fetch page content. This might be due to CORS restrictions or the page being unavailable. Error: Failed to fetch: Network error''),
          SetLoading False]"
    using fetchPageContentWith_valid [OF sample_trim
        sample_valid [of "[transport_fault, transport_fault, transport_fault]"], of corsProxies]
    unfolding fetchPageContent_def sample_try_block_all_faults
    by (simp add: catch_block_def failure_text_def corsProxies_def lit_append [symmetric])
  have b: "fetchPageContent (sample_platform [http_response 503 ''busy'', transport_fault, transport_fault])
        sample_state =
     Inr [SetLoading True, SetError [], SetHtmlContent [],
          Fetch (request_init (lit ''https://api.allorigins.win/raw?url=https%3A%2F%2Fexample.com'')),
          Fetch (request_init (lit ''https://cors-anywhere.herokuapp.com/https%3A%2F%2Fexample.com'')),
          Fetch (request_init (lit ''https://corsproxy.io/?https%3A%2F%2Fexample.com'')),
          ConsoleError (lit ''Error fetching page:'') (Error (lit ''Failed to fetch: 503'')),
          SetError (lit ''Failed to fetch page content. This might be due to CORS restrictions or the page being unavailable. Error: Failed to fetch: 503''),
          SetLoading False]"
    using fetchPageContentWith_valid [OF sample_trim
        sample_valid [of "[http_response 503 ''busy'', transport_fault, transport_fault]"], of corsProxies]
    unfolding fetchPageContent_def sample_try_block_503_then_faults
    by (simp add: catch_block_def failure_text_def corsProxies_def lit_append [symmetric])
  from a b network_error_text_lacks_cause show ?thesis by blast
qed

text \<open>
  C4.  A failure can leave the handler although the list is not exhausted.  The first
  proxy answers with status 200 and \<^verbatim>\<open>text()\<close> rejects: the \<^verbatim>\<open>await\<close> of line 71 is
  outside the \<^verbatim>\<open>try\<close> of the loop, so the outer \<^verbatim>\<open>catch\<close> sets the error after one
  request, and the two proxies left, which would have answered, are never asked.
\<close>

theorem failure_before_exhaustion_counterexample:
  "fetchPageContent
     (sample_platform [unreadable_response 200, http_response 200 ''<html>B</html>'',
                       http_response 200 ''<html>C</html>''])
     sample_state =
     Inr [SetLoading True, SetError [], SetHtmlContent [],
          Fetch (request_init (lit ''https://api.allorigins.win/raw?url=https%3A%2F%2Fexample.com'')),
          ConsoleError (lit ''Error fetching page:'') (Error (lit ''body stream interrupted'')),
          SetError (lit ''Failed to fetch page content. This might be due to CORS restrictions or the page being unavailable. Error: body stream interrupted''),
          SetLoading False]"
proof -
  let ?script = "[unreadable_response 200, http_response 200 ''<html>B</html>'',
                       http_response 200 ''<html>C</html>'']"
  let ?enc = "lit ''https%3A%2F%2Fexample.com''"
  let ?r = "\<lparr>status = 200, text_result = Inl (Error (lit ''body stream interrupted''))\<rparr>"
  have k: "0 < length corsProxies" by (simp add: length_corsProxies)
  have none: "\<forall>j<0. \<not> succeeded (attempt (sample_platform ?script) ?enc [] corsProxies j)"
    by simp
  have at: "attempt (sample_platform ?script) ?enc [] corsProxies 0 = Inr ?r"
    using sample_attempt [OF k, of ?script] by (simp add: unreadable_response_def)
  have okr: "ok ?r" by (simp add: ok_def)
  have body: "text_result ?r = Inl (Error (lit ''body stream interrupted''))" by simp
  have first: "take (Suc 0) corsProxies = [lit ''https://api.allorigins.win/raw?url='']"
    by (simp add: corsProxies_def)
  from fetchPageContentWith_unreadable
    [OF sample_trim sample_valid [of ?script] sample_enc k none at okr body]
  show ?thesis
    by (simp add: fetchPageContent_def first lit_append [symmetric] failure_text_def)
qed

text \<open>
  C4, as the code has it.  The handler never throws: every run returns.  A run that
  passed both checks ends in exactly one of these ways.
  \<^item> Some proxy is the first whose request is answered by a response with \<^verbatim>\<open>ok\<close>
    set: a throw of \<^verbatim>\<open>fetch\<close> and a response without \<^verbatim>\<open>ok\<close> at the proxies before
    it made the loop go on, the requests issued are those up to this proxy, and the run
    is a success with the text read from the response, or, when reading the text throws,
    a failure with the message thrown.
  \<^item> No request is answered with \<^verbatim>\<open>ok\<close> set: every proxy of the list has been
    asked, and the run is a failure whose message starts with \<open>Failed to fetch: \<close>.
  \<^item> \<^verbatim>\<open>encodeURIComponent\<close> throws: every pass of the loop ends in its \<^verbatim>\<open>catch\<close>
    without a request, and the run is a failure.
  When the request for the first proxy throws and the one for the second is answered
  with status 200 and text \<open>B\<close>, the run sets the HTML content to \<open>B\<close> and the last
  fetched URL to the URL entered.
\<close>

theorem every_run_returns_success_or_failure:
  "(\<exists>t. fetchPageContentWith P proxies st = Inr t)
   \<and> (trim (url st) \<noteq> [] \<and> isValidUrl P (url st) = Inr True \<longrightarrow>
        (\<forall>e. encodeURIComponent P (url st) = Inl e \<longrightarrow>
           fetchPageContentWith P proxies st =
             Inr [SetLoading True, SetError [], SetHtmlContent [],
                  ConsoleError (lit ''Error fetching page:'')
                    (Error (lit ''Failed to fetch: Network error'')),
                  SetError (failure_text @ lit ''Failed to fetch: Network error''),
                  SetLoading False])
      \<and> (\<forall>enc. encodeURIComponent P (url st) = Inr enc \<longrightarrow>
           (\<exists>k<length proxies. \<exists>r.
                (\<forall>j<k. \<not> succeeded (attempt P enc [] proxies j))
              \<and> attempt P enc [] proxies k = Inr r \<and> ok r
              \<and> fetchPageContentWith P proxies st =
                  Inr ([SetLoading True, SetError [], SetHtmlContent []]
                       @ map (\<lambda>q. Fetch (request_init (q @ enc))) (take (Suc k) proxies)
                       @ (case text_result r of
                            Inr B \<Rightarrow> [SetHtmlContent B, SetLastFetchedUrl (url st)]
                          | Inl err \<Rightarrow>
                              [ConsoleError (lit ''Error fetching page:'') err,
                               SetError (failure_text @
                                 (case err of Error m \<Rightarrow> m | NonError \<Rightarrow> lit ''Unknown error''))])
                       @ [SetLoading False]))
         \<or> ((\<forall>k<length proxies. \<not> succeeded (attempt P enc [] proxies k))
             \<and> (\<exists>detail.
                   fetchPageContentWith P proxies st =
                     Inr ([SetLoading True, SetError [], SetHtmlContent []]
                          @ map (\<lambda>q. Fetch (request_init (q @ enc))) proxies
                          @ [ConsoleError (lit ''Error fetching page:'')
                               (Error (lit ''Failed to fetch: '' @ detail)),
                             SetError (failure_text @ lit ''Failed to fetch: '' @ detail),
                             SetLoading False])
                 \<and> ((\<forall>k<length proxies. isl (attempt P enc [] proxies k))
                      \<and> detail = lit ''Network error''
                    \<or> (\<exists>k<length proxies. \<exists>r. attempt P enc [] proxies k = Inr r
                         \<and> (\<forall>j<length proxies. k < j \<longrightarrow> isl (attempt P enc [] proxies j))
                         \<and> detail = (if status r = 0 then lit ''Network error''
                                     else Number_toString (int (status r))))))))
      \<and> (\<forall>enc err r B p1 p2 more.
            proxies = p1 # p2 # more
          \<and> encodeURIComponent P (url st) = Inr enc
          \<and> fetch P [] (request_init (p1 @ enc)) = Inl err
          \<and> fetch P [request_init (p1 @ enc)] (request_init (p2 @ enc)) = Inr r
          \<and> status r = 200 \<and> text_result r = Inr B \<longrightarrow>
            fetchPageContentWith P proxies st =
              Inr [SetLoading True, SetError [], SetHtmlContent [],
                   Fetch (request_init (p1 @ enc)), Fetch (request_init (p2 @ enc)),
                   SetHtmlContent B, SetLastFetchedUrl (url st), SetLoading False]))"
proof (intro conjI impI allI)
  show "\<exists>t. fetchPageContentWith P proxies st = Inr t"
    by (rule fetchPageContentWith_returns)
next
  fix e
  assume "trim (url st) \<noteq> [] \<and> isValidUrl P (url st) = Inr True"
    and "encodeURIComponent P (url st) = Inl e"
  then show "fetchPageContentWith P proxies st =
             Inr [SetLoading True, SetError [], SetHtmlContent [],
                  ConsoleError (lit ''Error fetching page:'')
                    (Error (lit ''Failed to fetch: Network error'')),
                  SetError (failure_text @ lit ''Failed to fetch: Network error''),
                  SetLoading False]"
    using fetchPageContentWith_encode_throws [of st P e proxies] by simp
next
  fix enc
  assume valid: "trim (url st) \<noteq> [] \<and> isValidUrl P (url st) = Inr True"
    and enc: "encodeURIComponent P (url st) = Inr enc"
  from valid have v1: "trim (url st) \<noteq> []" and v2: "isValidUrl P (url st) = Inr True"
    by simp_all
  from first_success_or_none [of "length proxies" "\<lambda>k. succeeded (attempt P enc [] proxies k)"]
  show "(\<exists>k<length proxies. \<exists>r.
                (\<forall>j<k. \<not> succeeded (attempt P enc [] proxies j))
              \<and> attempt P enc [] proxies k = Inr r \<and> ok r
              \<and> fetchPageContentWith P proxies st =
                  Inr ([SetLoading True, SetError [], SetHtmlContent []]
                       @ map (\<lambda>q. Fetch (request_init (q @ enc))) (take (Suc k) proxies)
                       @ (case text_result r of
                            Inr B \<Rightarrow> [SetHtmlContent B, SetLastFetchedUrl (url st)]
                          | Inl err \<Rightarrow>
                              [ConsoleError (lit ''Error fetching page:'') err,
                               SetError (failure_text @
                                 (case err of Error m \<Rightarrow> m | NonError \<Rightarrow> lit ''Unknown error''))])
                       @ [SetLoading False]))
         \<or> ((\<forall>k<length proxies. \<not> succeeded (attempt P enc [] proxies k))
             \<and> (\<exists>detail.
                   fetchPageContentWith P proxies st =
                     Inr ([SetLoading True, SetError [], SetHtmlContent []]
                          @ map (\<lambda>q. Fetch (request_init (q @ enc))) proxies
                          @ [ConsoleError (lit ''Error fetching page:'')
                               (Error (lit ''Failed to fetch: '' @ detail)),
                             SetError (failure_text @ lit ''Failed to fetch: '' @ detail),
                             SetLoading False])
                 \<and> ((\<forall>k<length proxies. isl (attempt P enc [] proxies k))
                      \<and> detail = lit ''Network error''
                    \<or> (\<exists>k<length proxies. \<exists>r. attempt P enc [] proxies k = Inr r
                         \<and> (\<forall>j<length proxies. k < j \<longrightarrow> isl (attempt P enc [] proxies j))
                         \<and> detail = (if status r = 0 then lit ''Network error''
                                     else Number_toString (int (status r)))))))"
  proof
    assume ex: "\<forall>k<length proxies. \<not> succeeded (attempt P enc [] proxies k)"
    from fetchPageContentWith_exhausted [OF v1 v2 enc ex] ex
    show ?thesis by blast
  next
    assume "\<exists>k<length proxies. succeeded (attempt P enc [] proxies k)
              \<and> (\<forall>j<k. \<not> succeeded (attempt P enc [] proxies j))"
    then obtain k where k: "k < length proxies" "succeeded (attempt P enc [] proxies k)"
      "\<forall>j<k. \<not> succeeded (attempt P enc [] proxies j)"
      by blast
    from k(2) obtain r where r: "attempt P enc [] proxies k = Inr r" "ok r"
      by (auto simp: succeeded_def split: sum.splits)
    have "fetchPageContentWith P proxies st =
                  Inr ([SetLoading True, SetError [], SetHtmlContent []]
                       @ map (\<lambda>q. Fetch (request_init (q @ enc))) (take (Suc k) proxies)
                       @ (case text_result r of
                            Inr B \<Rightarrow> [SetHtmlContent B, SetLastFetchedUrl (url st)]
                          | Inl err \<Rightarrow>
                              [ConsoleError (lit ''Error fetching page:'') err,
                               SetError (failure_text @
                                 (case err of Error m \<Rightarrow> m | NonError \<Rightarrow> lit ''Unknown error''))])
                       @ [SetLoading False])"
    proof (cases "text_result r")
      case (Inl err)
      from fetchPageContentWith_unreadable [OF v1 v2 enc k(1) k(3) r Inl] Inl
      show ?thesis by simp
    next
      case (Inr B)
      from fetchPageContentWith_first_success [OF v1 v2 enc k(1) k(3) r Inr] Inr
      show ?thesis by simp
    qed
    with k(1,3) r show ?thesis by blast
  qed
next
  fix enc err r B p1 p2 more
  assume valid: "trim (url st) \<noteq> [] \<and> isValidUrl P (url st) = Inr True"
    and h: "proxies = p1 # p2 # more
          \<and> encodeURIComponent P (url st) = Inr enc
          \<and> fetch P [] (request_init (p1 @ enc)) = Inl err
          \<and> fetch P [request_init (p1 @ enc)] (request_init (p2 @ enc)) = Inr r
          \<and> status r = 200 \<and> text_result r = Inr B"
  from valid have v1: "trim (url st) \<noteq> []" and v2: "isValidUrl P (url st) = Inr True"
    by simp_all
  from h have enc: "encodeURIComponent P (url st) = Inr enc" by simp
  have k: "Suc 0 < length proxies" using h by simp
  have before: "\<forall>j<Suc 0. \<not> succeeded (attempt P enc [] proxies j)"
    using h by (simp add: attempt_def succeeded_def)
  have at: "attempt P enc [] proxies (Suc 0) = Inr r"
    using h by (simp add: attempt_def)
  have okr: "ok r" using h by (simp add: ok_def)
  have body: "text_result r = Inr B" using h by simp
  from fetchPageContentWith_first_success [OF v1 v2 enc k before at okr body] h
  show "fetchPageContentWith P proxies st =
              Inr [SetLoading True, SetError [], SetHtmlContent [],
                   Fetch (request_init (p1 @ enc)), Fetch (request_init (p2 @ enc)),
                   SetHtmlContent B, SetLastFetchedUrl (url st), SetLoading False]"
    by simp
qed

theorem every_run_returns_success_or_failure_witness:
  "fetchPageContent
     (sample_platform [transport_fault, http_response 200 ''<html>B</html>'']) sample_state =
     Inr [SetLoading True, SetError [], SetHtmlContent [],
          Fetch (request_init (lit ''https://api.allorigins.win/raw?url=https%3A%2F%2Fexample.com'')),
          Fetch (request_init (lit ''https://cors-anywhere.herokuapp.com/https%3A%2F%2Fexample.com'')),
          SetHtmlContent (lit ''<html>B</html>''),
          SetLastFetchedUrl (lit ''https://example.com''),
          SetLoading False]"
proof -
  let ?script = "[transport_fault, http_response 200 ''<html>B</html>'']"
  let ?P = "sample_platform ?script"
  let ?enc = "lit ''https%3A%2F%2Fexample.com''"
  let ?p1 = "lit ''https://api.allorigins.win/raw?url=''"
  let ?p2 = "lit ''https://cors-anywhere.herokuapp.com/''"
  let ?r = "\<lparr>status = 200, text_result = Inr (lit ''<html>B</html>'')\<rparr>"
  note example = every_run_returns_success_or_failure
    [where P = "?P" and st = sample_state and proxies = corsProxies,
      THEN conjunct2, THEN mp, OF conjI [OF sample_trim sample_valid [of ?script]],
      THEN conjunct2, THEN conjunct2, rule_format]
  have list: "corsProxies = ?p1 # ?p2 # [lit ''https://corsproxy.io/?'']"
    by (simp add: corsProxies_def)
  have first: "fetch ?P [] (request_init (?p1 @ ?enc)) = Inl (Error (lit ''connection refused''))"
    by (simp add: sample_platform_def scripted_fetch_def transport_fault_def)
  have second: "fetch ?P [request_init (?p1 @ ?enc)] (request_init (?p2 @ ?enc)) = Inr ?r"
    by (simp add: sample_platform_def scripted_fetch_def http_response_def)
  have "fetchPageContentWith ?P corsProxies sample_state =
           Inr [SetLoading True, SetError [], SetHtmlContent [],
                Fetch (request_init (?p1 @ ?enc)), Fetch (request_init (?p2 @ ?enc)),
                SetHtmlContent (lit ''<html>B</html>''), SetLastFetchedUrl (url sample_state),
                SetLoading False]"
    using list sample_enc [of ?script] first second
    by (intro example [of ?p1 ?p2 _ ?enc _ ?r]) simp
  then show ?thesis
    by (simp add: fetchPageContent_def lit_append [symmetric] sample_state_def)
qed

end
